theory Spec2Isabelle
  imports Complex_Main "HOL-Library.Sublist"
begin

section \<open>Data model\<close>

text \<open>
  Python floats are modelled as \<^typ>\<open>real\<close>, Python strings as \<^typ>\<open>string\<close> (one
  \<^typ>\<open>char\<close> per code point, so the model covers code points below 256), and a naive
  \<open>datetime\<close> as the number of microseconds since a fixed origin.
\<close>

type_synonym datetime = int

text \<open>\<open>src/feeds/fetcher.py\<close>, dataclass \<open>RawArticle\<close>.\<close>

record RawArticle =
  title :: string
  url :: string
  source :: string
  published :: datetime
  summary :: string
  author :: string
  tags :: "string list"

text \<open>\<open>src/agent/news_agent.py\<close>, dataclasses \<open>ArticleSummary\<close> and \<open>DailySummary\<close>.\<close>

record ArticleSummary =
  title :: string
  url :: string
  source :: string
  published :: string
  summary :: string
  key_points :: "string list"
  importance_score :: real
  category :: string

record DailySummary =
  date :: string
  articles :: "ArticleSummary list"
  total_fetched :: int
  total_parsed :: int
  sources_used :: "string list"

section \<open>String primitives of Python used by the code\<close>

text \<open>\<open>str.lower()\<close> on code points below 256: A-Z and the Latin-1 capitals move by 32.\<close>

definition lower_char :: "char \<Rightarrow> char" where
  "lower_char c = (let n = (of_char c :: nat) in
     if (65 \<le> n \<and> n \<le> 90) \<or> (192 \<le> n \<and> n \<le> 222 \<and> n \<noteq> 215)
     then char_of (n + 32) else c)"

definition lower :: "string \<Rightarrow> string" where
  "lower s = map lower_char s"

text \<open>\<open>s.startswith(k)\<close> and the substring test \<open>k in s\<close>.\<close>

fun startswith :: "string \<Rightarrow> string \<Rightarrow> bool" where
  "startswith s [] = True"
| "startswith [] (k # ks) = False"
| "startswith (c # cs) (k # ks) = (c = k \<and> startswith cs ks)"

fun str_in :: "string \<Rightarrow> string \<Rightarrow> bool" where
  "str_in k [] = (k = [])"
| "str_in k (c # cs) = (startswith (c # cs) k \<or> str_in k cs)"

text \<open>\<open>s.replace('...', '.')\<close>: non-overlapping occurrences, left to right.\<close>

fun replace_ellipsis :: "string \<Rightarrow> string" where
  "replace_ellipsis (a # b # c # rest) =
     (if a = CHR ''.'' \<and> b = CHR ''.'' \<and> c = CHR ''.''
      then CHR ''.'' # replace_ellipsis rest
      else a # replace_ellipsis (b # c # rest))"
| "replace_ellipsis s = s"

text \<open>
  \<open>s.split('.')\<close>: the fragments between periods; the result is never empty
  (\<open>''.split('.') == ['']\<close>). The second argument is the fragment read so far.
\<close>

fun split_loop :: "string \<Rightarrow> string \<Rightarrow> string list" where
  "split_loop [] cur = [cur]"
| "split_loop (c # cs) cur =
     (if c = CHR ''.'' then cur # split_loop cs [] else split_loop cs (cur @ [c]))"

definition split_period :: "string \<Rightarrow> string list" where
  "split_period s = split_loop s []"

text \<open>\<open>str.isspace\<close> for one code point below 256, and \<open>s.strip()\<close>.\<close>

definition isspace :: "char \<Rightarrow> bool" where
  "isspace c = (let n = (of_char c :: nat) in
     (9 \<le> n \<and> n \<le> 13) \<or> (28 \<le> n \<and> n \<le> 32) \<or> n = 133 \<or> n = 160)"

definition strip :: "string \<Rightarrow> string" where
  "strip s = rev (dropWhile isspace (rev (dropWhile isspace s)))"

section \<open>Feed fetcher: \<open>src/feeds/fetcher.py\<close>\<close>

text \<open>
  \<open>filter_today_articles\<close>: \<open>now\<close> is the value of \<open>datetime.now()\<close> read by the call,
  \<open>timedelta(days=days)\<close> is \<open>days\<close> times 86400 seconds.
\<close>

definition filter_today_articles :: "datetime \<Rightarrow> RawArticle list \<Rightarrow> int \<Rightarrow> RawArticle list" where
  "filter_today_articles now as days =
     (let cutoff = now - days * 86400000000
      in filter (\<lambda>article. RawArticle.published article \<ge> cutoff) as)"

text \<open>\<open>deduplicate\<close>: the loop carries \<open>seen_urls\<close> and \<open>unique_articles\<close>.\<close>

fun deduplicate_loop :: "RawArticle list \<Rightarrow> string set \<Rightarrow> RawArticle list \<Rightarrow> RawArticle list" where
  "deduplicate_loop [] seen_urls unique_articles = unique_articles"
| "deduplicate_loop (article # rest) seen_urls unique_articles =
     (if RawArticle.url article \<notin> seen_urls
      then deduplicate_loop rest (insert (RawArticle.url article) seen_urls)
             (unique_articles @ [article])
      else deduplicate_loop rest seen_urls unique_articles)"

definition deduplicate :: "RawArticle list \<Rightarrow> RawArticle list" where
  "deduplicate as = deduplicate_loop as {} []"

section \<open>Heuristic enrichment: \<open>src/agent/news_agent.py\<close>\<close>

text \<open>\<open>_extract_key_points\<close>.\<close>

definition extract_key_points :: "string \<Rightarrow> string list" where
  "extract_key_points s =
     (if s = [] then []
      else let sentences = split_period (replace_ellipsis s);
               sentences = map strip
                 (filter (\<lambda>f. strip f \<noteq> [] \<and> length (strip f) > 20) sentences)
           in take 3 sentences)"

text \<open>\<open>_calculate_importance\<close>: the loop over the keyword list carries \<open>score\<close>.\<close>

definition important_keywords :: "string list" where
  "important_keywords =
     [''ai'', ''artificial intelligence'', ''breakthrough'', ''launch'',
      ''announce'', ''release'', ''new'', ''first'', ''major'', ''billion'',
      ''google'', ''apple'', ''microsoft'', ''openai'', ''meta'', ''amazon'']"

fun importance_loop :: "string \<Rightarrow> string list \<Rightarrow> real \<Rightarrow> real" where
  "importance_loop title_lower [] score = score"
| "importance_loop title_lower (keyword # rest) score =
     importance_loop title_lower rest
       (if str_in keyword title_lower then score + 0.5 else score)"

definition calculate_importance :: "RawArticle \<Rightarrow> real" where
  "calculate_importance article =
     (let title_lower = lower (RawArticle.title article)
      in min 10.0 (importance_loop title_lower important_keywords 5.0))"

text \<open>
  \<open>_categorize_article\<close>: the dict literal keeps its insertion order, so the table is an
  association list; the inner loop returns at the first keyword found.
\<close>

definition categories :: "(string \<times> string list) list" where
  "categories =
     [(''AI/ML'', [''ai'', ''artificial intelligence'', ''machine learning'', ''gpt'',
                   ''llm'', ''chatgpt'', ''neural'']),
      (''Startups'', [''startup'', ''funding'', ''venture'', ''seed'', ''series a'',
                      ''series b'', ''valuation'']),
      (''Gadgets'', [''phone'', ''iphone'', ''android'', ''laptop'', ''tablet'',
                     ''wearable'', ''headphone'']),
      (''Gaming'', [''game'', ''gaming'', ''playstation'', ''xbox'', ''nintendo'', ''steam'']),
      (''Space'', [''space'', ''nasa'', ''spacex'', ''rocket'', ''satellite'', ''mars'',
                   ''moon'']),
      (''Security'', [''security'', ''hack'', ''breach'', ''privacy'', ''cyber'',
                      ''ransomware'']),
      (''Software'', [''app'', ''software'', ''update'', ''feature'', ''version''])]"

fun keyword_loop :: "string \<Rightarrow> string list \<Rightarrow> bool" where
  "keyword_loop title_lower [] = False"
| "keyword_loop title_lower (keyword # rest) =
     (if str_in keyword title_lower then True else keyword_loop title_lower rest)"

fun category_loop :: "string \<Rightarrow> (string \<times> string list) list \<Rightarrow> string" where
  "category_loop title_lower [] = ''Tech''"
| "category_loop title_lower ((cat, keywords) # rest) =
     (if keyword_loop title_lower keywords then cat else category_loop title_lower rest)"

definition categorize_article :: "RawArticle \<Rightarrow> string" where
  "categorize_article article =
     (let title_lower = lower (RawArticle.title article)
      in category_loop title_lower categories)"

section \<open>Article ranker: \<open>src/ranking/ranker.py\<close>\<close>

record ArticleRanker =
  recency_weight :: real
  importance_weight :: real
  diversity_weight :: real

text \<open>The weights of \<open>ArticleRanker()\<close>.\<close>

definition default_ranker :: ArticleRanker where
  "default_ranker =
     \<lparr>recency_weight = 0.2, importance_weight = 0.6, diversity_weight = 0.2\<rparr>"

text \<open>
  \<open>calculate_recency_score\<close> receives a string or a \<open>datetime\<close>. The library function
  \<open>datetime.strptime\<close> is a parameter: \<open>None\<close> stands for its \<open>ValueError\<close>. The
  \<open>for ... else\<close> loop tries the three formats in order on \<open>str(published)[:19]\<close>.
\<close>

datatype published_value = Str string | Datetime datetime

type_synonym strptime = "string \<Rightarrow> string \<Rightarrow> datetime option"

definition date_formats :: "string list" where
  "date_formats = [''%Y-%m-%d %H:%M:%S'', ''%Y-%m-%dT%H:%M:%S'', ''%Y-%m-%d'']"

fun parse_formats :: "strptime \<Rightarrow> string \<Rightarrow> string list \<Rightarrow> datetime option" where
  "parse_formats strptime s [] = None"
| "parse_formats strptime s (fmt # fmts) =
     (case strptime s fmt of
        Some pub_date \<Rightarrow> Some pub_date
      | None \<Rightarrow> parse_formats strptime s fmts)"

definition parse_published :: "strptime \<Rightarrow> published_value \<Rightarrow> datetime option" where
  "parse_published strptime p =
     (case p of
        Datetime pub_date \<Rightarrow> Some pub_date
      | Str s \<Rightarrow> parse_formats strptime (take 19 s) date_formats)"

text \<open>\<open>(datetime.now() - pub_date).total_seconds() / 3600\<close>.\<close>

definition hours_between :: "datetime \<Rightarrow> datetime \<Rightarrow> real" where
  "hours_between now pub_date = real_of_int (now - pub_date) / 1000000 / 3600"

definition calculate_recency_score :: "strptime \<Rightarrow> datetime \<Rightarrow> published_value \<Rightarrow> real" where
  "calculate_recency_score strptime now p =
     (case parse_published strptime p of
        None \<Rightarrow> 5.0
      | Some pub_date \<Rightarrow>
          (let hours_ago = hours_between now pub_date
           in if hours_ago \<le> 1 then 10.0
              else if hours_ago \<le> 6 then 9.0
              else if hours_ago \<le> 12 then 7.0
              else if hours_ago \<le> 24 then 5.0
              else max 1.0 (5.0 - (hours_ago - 24) / 24)))"

text \<open>\<open>calculate_diversity_penalty\<close>: the loop over \<open>selected\<close> carries \<open>penalty\<close>.\<close>

fun penalty_loop :: "ArticleSummary \<Rightarrow> ArticleSummary list \<Rightarrow> real \<Rightarrow> real" where
  "penalty_loop article [] penalty = penalty"
| "penalty_loop article (sel # rest) penalty =
     (let penalty = (if source article = source sel then penalty + 2.0 else penalty);
          penalty = (if category article = category sel then penalty + 1.0 else penalty)
      in penalty_loop article rest penalty)"

definition calculate_diversity_penalty :: "ArticleSummary \<Rightarrow> ArticleSummary list \<Rightarrow> real" where
  "calculate_diversity_penalty article selected = penalty_loop article selected 0.0"

text \<open>
  \<open>calculate_final_score\<close>; \<open>selected or []\<close> makes the default \<open>None\<close> the empty list.
  \<open>now\<close> is the clock value read by the recency score.
\<close>

definition calculate_final_score ::
  "ArticleRanker \<Rightarrow> strptime \<Rightarrow> datetime \<Rightarrow> ArticleSummary \<Rightarrow> ArticleSummary list \<Rightarrow> real" where
  "calculate_final_score rk strptime now article selected =
     (let importance = importance_score article;
          recency = calculate_recency_score strptime now (Str (published article));
          diversity_penalty = calculate_diversity_penalty article selected;
          final_score = importance_weight rk * importance + recency_weight rk * recency
                        - diversity_weight rk * diversity_penalty
      in max 0.0 final_score)"

text \<open>
  \<open>get_top_n\<close>. The inner \<open>for\<close> loop over \<open>enumerate(remaining)\<close> carries
  \<open>(best_score, best_idx)\<close>, starting from \<open>(-1, 0)\<close>. \<open>remaining.pop(best_idx)\<close> raises
  \<open>IndexError\<close> out of range, which is the result \<open>None\<close>. One clock value \<open>now\<close> serves
  all score computations of a call.
\<close>

fun best_scan ::
  "(ArticleSummary \<Rightarrow> real) \<Rightarrow> ArticleSummary list \<Rightarrow> nat \<Rightarrow> real \<times> nat \<Rightarrow> real \<times> nat" where
  "best_scan score [] i best = best"
| "best_scan score (article # rest) i (best_score, best_idx) =
     best_scan score rest (Suc i)
       (if score article > best_score then (score article, i) else (best_score, best_idx))"

definition find_best ::
  "(ArticleSummary \<Rightarrow> ArticleSummary list \<Rightarrow> real) \<Rightarrow> ArticleSummary list \<Rightarrow>
   ArticleSummary list \<Rightarrow> nat" where
  "find_best score selected remaining =
     snd (best_scan (\<lambda>article. score article selected) remaining 0 (- 1, 0))"

function get_top_n_loop ::
  "(ArticleSummary \<Rightarrow> ArticleSummary list \<Rightarrow> real) \<Rightarrow> int \<Rightarrow> ArticleSummary list \<Rightarrow>
   ArticleSummary list \<Rightarrow> ArticleSummary list option" where
  "get_top_n_loop score n selected remaining =
     (if int (length selected) < n \<and> remaining \<noteq> []
      then if find_best score selected remaining < length remaining
           then get_top_n_loop score n
                  (selected @ [remaining ! find_best score selected remaining])
                  (take (find_best score selected remaining) remaining
                   @ drop (Suc (find_best score selected remaining)) remaining)
           else None
      else Some selected)"
  by pat_completeness auto
termination
  by (relation "measure (\<lambda>(score, n, selected, remaining). length remaining)") auto

definition get_top_n ::
  "ArticleRanker \<Rightarrow> strptime \<Rightarrow> datetime \<Rightarrow> ArticleSummary list \<Rightarrow> int \<Rightarrow>
   ArticleSummary list option" where
  "get_top_n rk strptime now summaries n =
     (if int (length summaries) \<le> n then Some summaries
      else get_top_n_loop (calculate_final_score rk strptime now) n [] summaries)"

text \<open>
  The greedy algorithm as the specification words it, for comparison with \<open>get_top_n\<close>:
  in each round every remaining candidate is scored against the current selection and the
  highest-scoring one, the earliest on ties, moves into the selection; the rounds stop
  after \<open>n\<close> selections or when the pool is empty.
\<close>

definition highest_scoring_index :: "real list \<Rightarrow> nat" where
  "highest_scoring_index scores =
     length (takeWhile (\<lambda>s. s \<noteq> Max (set scores)) scores)"

fun greedy_rounds ::
  "(ArticleSummary \<Rightarrow> ArticleSummary list \<Rightarrow> real) \<Rightarrow> nat \<Rightarrow> ArticleSummary list \<Rightarrow>
   ArticleSummary list \<Rightarrow> ArticleSummary list" where
  "greedy_rounds score 0 selected pool = selected"
| "greedy_rounds score (Suc k) selected pool =
     (if pool = [] then selected
      else let i = highest_scoring_index (map (\<lambda>candidate. score candidate selected) pool)
           in greedy_rounds score k (selected @ [pool ! i]) (take i pool @ drop (Suc i) pool))"

definition reference_greedy ::
  "ArticleRanker \<Rightarrow> strptime \<Rightarrow> datetime \<Rightarrow> ArticleSummary list \<Rightarrow> int \<Rightarrow> ArticleSummary list" where
  "reference_greedy rk strptime now summaries n =
     greedy_rounds (calculate_final_score rk strptime now) (nat n) [] summaries"

text \<open>
  \<open>ensure_source_diversity\<close>. \<open>sorted(..., key=importance_score, reverse=True)\<close> is a stable
  sort into descending order: a stable ascending sort on the negated key. The
  \<open>defaultdict(int)\<close> is a total function that starts at 0 everywhere.
\<close>

definition sorted_by_importance :: "ArticleSummary list \<Rightarrow> ArticleSummary list" where
  "sorted_by_importance summaries = sort_key (\<lambda>s. - importance_score s) summaries"

fun diversity_loop ::
  "int \<Rightarrow> int \<Rightarrow> ArticleSummary list \<Rightarrow> ArticleSummary list \<Rightarrow> (string \<Rightarrow> int) \<Rightarrow>
   ArticleSummary list" where
  "diversity_loop n max_per_source [] selected source_counts = selected"
| "diversity_loop n max_per_source (article # rest) selected source_counts =
     (if int (length selected) \<ge> n then selected
      else if source_counts (source article) < max_per_source
      then diversity_loop n max_per_source rest (selected @ [article])
             (source_counts(source article := source_counts (source article) + 1))
      else diversity_loop n max_per_source rest selected source_counts)"

definition ensure_source_diversity ::
  "ArticleSummary list \<Rightarrow> int \<Rightarrow> int \<Rightarrow> ArticleSummary list" where
  "ensure_source_diversity summaries n max_per_source =
     diversity_loop n max_per_source (sorted_by_importance summaries) [] (\<lambda>_. 0)"

text \<open>The number of articles of a list that come from a given source.\<close>

abbreviation count_source :: "string \<Rightarrow> ArticleSummary list \<Rightarrow> nat" where
  "count_source s xs \<equiv> length (filter (\<lambda>a. source a = s) xs)"

section \<open>The greedy ranker in floating-point arithmetic, with a running clock\<close>

text \<open>
  Python computes the scores in double precision: the result of each of \<open>+\<close>, \<open>-\<close>, \<open>*\<close>
  and \<open>/\<close> is the exact result rounded to a double, so that two scores that are equal
  as real numbers can differ by a rounding error in the code, and the candidate chosen by
  \<open>get_top_n\<close> depends on it. The rounding is the parameter \<open>rnd\<close>, applied to the exact
  result of every arithmetic operation, in the order in which Python evaluates them;
  comparisons, \<open>max\<close> and \<open>min\<close> are exact. The values are the finite doubles (no NaN, no
  infinity). With the identity as rounding these definitions are the exact ones above.

  Every call of \<open>calculate_final_score\<close> reads \<open>datetime.now()\<close> anew, so the clock moves
  between two score computations of one call of \<open>get_top_n\<close>: \<open>clock k\<close> is the clock value
  during score computation number \<open>k\<close> of the call, counted from 0.
\<close>

type_synonym rounding = "real \<Rightarrow> real"

text \<open>
  \<open>(datetime.now() - pub_date).total_seconds() / 3600\<close>: \<open>total_seconds()\<close> divides the
  microseconds by \<open>10**6\<close>, the result is divided by 3600.
\<close>

definition hours_between_fp :: "rounding \<Rightarrow> datetime \<Rightarrow> datetime \<Rightarrow> real" where
  "hours_between_fp rnd now pub_date =
     rnd (rnd (real_of_int (now - pub_date) / 1000000) / 3600)"

definition calculate_recency_score_fp ::
  "rounding \<Rightarrow> strptime \<Rightarrow> datetime \<Rightarrow> published_value \<Rightarrow> real" where
  "calculate_recency_score_fp rnd strptime now p =
     (case parse_published strptime p of
        None \<Rightarrow> 5.0
      | Some pub_date \<Rightarrow>
          (let hours_ago = hours_between_fp rnd now pub_date
           in if hours_ago \<le> 1 then 10.0
              else if hours_ago \<le> 6 then 9.0
              else if hours_ago \<le> 12 then 7.0
              else if hours_ago \<le> 24 then 5.0
              else max 1.0 (rnd (5.0 - rnd (rnd (hours_ago - 24) / 24)))))"

fun penalty_loop_fp ::
  "rounding \<Rightarrow> ArticleSummary \<Rightarrow> ArticleSummary list \<Rightarrow> real \<Rightarrow> real" where
  "penalty_loop_fp rnd article [] penalty = penalty"
| "penalty_loop_fp rnd article (sel # rest) penalty =
     (let penalty = (if source article = source sel then rnd (penalty + 2.0) else penalty);
          penalty = (if category article = category sel then rnd (penalty + 1.0) else penalty)
      in penalty_loop_fp rnd article rest penalty)"

definition calculate_diversity_penalty_fp ::
  "rounding \<Rightarrow> ArticleSummary \<Rightarrow> ArticleSummary list \<Rightarrow> real" where
  "calculate_diversity_penalty_fp rnd article selected =
     penalty_loop_fp rnd article selected 0.0"

definition calculate_final_score_fp ::
  "rounding \<Rightarrow> ArticleRanker \<Rightarrow> strptime \<Rightarrow> datetime \<Rightarrow> ArticleSummary \<Rightarrow>
   ArticleSummary list \<Rightarrow> real" where
  "calculate_final_score_fp rnd rk strptime now article selected =
     (let importance = importance_score article;
          recency = calculate_recency_score_fp rnd strptime now (Str (published article));
          diversity_penalty = calculate_diversity_penalty_fp rnd article selected;
          final_score = rnd (rnd (rnd (importance_weight rk * importance)
                                  + rnd (recency_weight rk * recency))
                             - rnd (diversity_weight rk * diversity_penalty))
      in max 0.0 final_score)"

text \<open>
  \<open>get_top_n\<close> again. In the scan of one round the candidate at index \<open>i\<close> is scored by
  \<open>score i\<close>; in a round that starts after \<open>t\<close> score computations this is score
  computation number \<open>t + i\<close> of the call, and the next round starts after
  \<open>t + len(remaining)\<close> of them.
\<close>

fun best_scan_fp ::
  "(nat \<Rightarrow> ArticleSummary \<Rightarrow> real) \<Rightarrow> ArticleSummary list \<Rightarrow> nat \<Rightarrow> real \<times> nat \<Rightarrow>
   real \<times> nat" where
  "best_scan_fp score [] i best = best"
| "best_scan_fp score (article # rest) i (best_score, best_idx) =
     best_scan_fp score rest (Suc i)
       (if score i article > best_score then (score i article, i)
        else (best_score, best_idx))"

definition find_best_fp ::
  "(nat \<Rightarrow> ArticleSummary \<Rightarrow> ArticleSummary list \<Rightarrow> real) \<Rightarrow> nat \<Rightarrow> ArticleSummary list \<Rightarrow>
   ArticleSummary list \<Rightarrow> nat" where
  "find_best_fp score t selected remaining =
     snd (best_scan_fp (\<lambda>i article. score (t + i) article selected) remaining 0 (- 1, 0))"

function get_top_n_loop_fp ::
  "(nat \<Rightarrow> ArticleSummary \<Rightarrow> ArticleSummary list \<Rightarrow> real) \<Rightarrow> int \<Rightarrow> nat \<Rightarrow>
   ArticleSummary list \<Rightarrow> ArticleSummary list \<Rightarrow> ArticleSummary list option" where
  "get_top_n_loop_fp score n t selected remaining =
     (if int (length selected) < n \<and> remaining \<noteq> []
      then if find_best_fp score t selected remaining < length remaining
           then get_top_n_loop_fp score n (t + length remaining)
                  (selected @ [remaining ! find_best_fp score t selected remaining])
                  (take (find_best_fp score t selected remaining) remaining
                   @ drop (Suc (find_best_fp score t selected remaining)) remaining)
           else None
      else Some selected)"
  by pat_completeness auto
termination
  by (relation "measure (\<lambda>(score, n, t, selected, remaining). length remaining)") auto

definition get_top_n_fp ::
  "rounding \<Rightarrow> ArticleRanker \<Rightarrow> strptime \<Rightarrow> (nat \<Rightarrow> datetime) \<Rightarrow> ArticleSummary list \<Rightarrow>
   int \<Rightarrow> ArticleSummary list option" where
  "get_top_n_fp rnd rk strptime clock summaries n =
     (if int (length summaries) \<le> n then Some summaries
      else get_top_n_loop_fp (\<lambda>k. calculate_final_score_fp rnd rk strptime (clock k))
             n 0 [] summaries)"

text \<open>
  The greedy algorithm as the specification words it, with the same arithmetic and the
  same clock: in each round every remaining candidate is scored, in pool order, against
  the current selection, and the highest-scoring one, the earliest on ties, moves into
  the selection; the rounds stop after \<open>n\<close> selections or when the pool is empty.
\<close>

fun greedy_rounds_fp ::
  "(nat \<Rightarrow> ArticleSummary \<Rightarrow> ArticleSummary list \<Rightarrow> real) \<Rightarrow> nat \<Rightarrow> nat \<Rightarrow>
   ArticleSummary list \<Rightarrow> ArticleSummary list \<Rightarrow> ArticleSummary list" where
  "greedy_rounds_fp score 0 t selected pool = selected"
| "greedy_rounds_fp score (Suc k) t selected pool =
     (if pool = [] then selected
      else let scores = map (\<lambda>(i, candidate). score (t + i) candidate selected)
                          (enumerate 0 pool);
               i = highest_scoring_index scores
           in greedy_rounds_fp score k (t + length pool) (selected @ [pool ! i])
                (take i pool @ drop (Suc i) pool))"

definition reference_greedy_fp ::
  "rounding \<Rightarrow> ArticleRanker \<Rightarrow> strptime \<Rightarrow> (nat \<Rightarrow> datetime) \<Rightarrow> ArticleSummary list \<Rightarrow>
   int \<Rightarrow> ArticleSummary list" where
  "reference_greedy_fp rnd rk strptime clock summaries n =
     greedy_rounds_fp (\<lambda>k. calculate_final_score_fp rnd rk strptime (clock k))
       (nat n) 0 [] summaries"

section \<open>Orchestrator: \<open>NewsAgent.run\<close> in \<open>src/agent/news_agent.py\<close>\<close>

text \<open>The messages handed to \<open>progress_callback\<close>, in the order of the source.\<close>

datatype progress =
    Fetching
  | Found nat
  | Filtered nat
  | Processing
  | Processed nat
  | Selecting int

text \<open>The body of the enrichment loop; \<open>str_datetime\<close> is Python's \<open>str\<close> on a \<open>datetime\<close>.\<close>

definition make_summary :: "(datetime \<Rightarrow> string) \<Rightarrow> RawArticle \<Rightarrow> ArticleSummary" where
  "make_summary str_datetime article =
     \<lparr>title = RawArticle.title article,
      url = RawArticle.url article,
      source = RawArticle.source article,
      published = str_datetime (RawArticle.published article),
      summary = (if RawArticle.summary article \<noteq> [] then RawArticle.summary article
                 else ''Click to read the full article.''),
      key_points = extract_key_points (RawArticle.summary article),
      importance_score = calculate_importance article,
      category = categorize_article article\<rparr>"

text \<open>\<open>source_counts.get(key, 0)\<close> on a dict.\<close>

definition dict_get :: "(string \<rightharpoonup> int) \<Rightarrow> string \<Rightarrow> int \<Rightarrow> int" where
  "dict_get d k dflt = (case d k of None \<Rightarrow> dflt | Some v \<Rightarrow> v)"

fun selection_loop ::
  "int \<Rightarrow> ArticleSummary list \<Rightarrow> ArticleSummary list \<Rightarrow> (string \<rightharpoonup> int) \<Rightarrow>
   ArticleSummary list" where
  "selection_loop top_n [] top_articles source_counts = top_articles"
| "selection_loop top_n (article # rest) top_articles source_counts =
     (if int (length top_articles) \<ge> top_n then top_articles
      else if dict_get source_counts (source article) 0 < 2
      then selection_loop top_n rest (top_articles @ [article])
             (source_counts(source article \<mapsto> dict_get source_counts (source article) 0 + 1))
      else selection_loop top_n rest top_articles source_counts)"

text \<open>
  \<open>run\<close>. The parameters are what the run reads from outside: \<open>top_n\<close> of the agent, the
  formatted date \<open>today\<close>, the clock value \<open>now\<close> read by the window filter, and
  \<open>raw_articles\<close>, the result of \<open>fetch_all_feeds\<close>. The second component is the sequence
  of messages a supplied callback receives. \<open>list(set(...))\<close> has no specified order; the
  model lists each source once.
\<close>

definition run ::
  "int \<Rightarrow> string \<Rightarrow> datetime \<Rightarrow> (datetime \<Rightarrow> string) \<Rightarrow> RawArticle list \<Rightarrow>
   DailySummary \<times> progress list" where
  "run top_n today now str_datetime raw_articles =
     (let today_articles = filter_today_articles now raw_articles 7;
          today_articles = deduplicate today_articles;
          log = [Fetching, Found (length raw_articles), Filtered (length today_articles)]
      in if today_articles = []
         then (\<lparr>date = today, articles = [], total_fetched = int (length raw_articles),
                 total_parsed = 0, sources_used = []\<rparr>, log)
         else let summaries = map (make_summary str_datetime) (take 100 today_articles);
                  log = log @ [Processing, Processed (length summaries), Selecting top_n];
                  summaries = sort_key (\<lambda>x. - importance_score x) summaries;
                  top_articles = selection_loop top_n summaries [] Map.empty;
                  sources_used = remdups (map source top_articles)
              in (\<lparr>date = today, articles = top_articles,
                    total_fetched = int (length raw_articles),
                    total_parsed = int (length summaries),
                    sources_used = sources_used\<rparr>, log))"

section \<open>The specification's wording, for comparison\<close>

text \<open>
  Importance as the specification words it: 0.5 for each occurrence of a keyword in the
  lower-cased title, an occurrence being a position where the keyword starts.
\<close>

fun count_occurrences :: "string \<Rightarrow> string \<Rightarrow> nat" where
  "count_occurrences k [] = 0"
| "count_occurrences k (c # cs) =
     (if startswith (c # cs) k then 1 else 0) + count_occurrences k cs"

definition spec_importance :: "RawArticle \<Rightarrow> real" where
  "spec_importance article =
     min 10 (5 + 0.5 * real (sum_list (map (\<lambda>k. count_occurrences k
                                               (lower (RawArticle.title article)))
                                        important_keywords)))"

text \<open>
  Categories as the specification words it: a category matches when one of the words of
  the lower-cased title (the runs of characters between spaces) is one of its keywords.
\<close>

fun words_loop :: "string \<Rightarrow> string \<Rightarrow> string list" where
  "words_loop [] cur = (if cur = [] then [] else [cur])"
| "words_loop (c # cs) cur =
     (if c = CHR '' '' then (if cur = [] then [] else [cur]) @ words_loop cs []
      else words_loop cs (cur @ [c]))"

definition spec_categorize :: "RawArticle \<Rightarrow> string" where
  "spec_categorize article =
     (case find (\<lambda>(cat, keywords).
                   \<exists>w \<in> set (words_loop (lower (RawArticle.title article)) []).
                     w \<in> set keywords) categories of
        None \<Rightarrow> ''Tech''
      | Some (cat, keywords) \<Rightarrow> cat)"

text \<open>Key points as the specification words it: fragments under 20 characters are dropped.\<close>

definition spec_key_points :: "string \<Rightarrow> string list" where
  "spec_key_points s =
     take 3 (filter (\<lambda>f. \<not> length f < 20)
               (map strip (split_period (replace_ellipsis s))))"

section \<open>Concrete inputs\<close>

definition example_raw :: "string \<Rightarrow> string \<Rightarrow> datetime \<Rightarrow> RawArticle" where
  "example_raw t u p =
     \<lparr>RawArticle.title = t, url = u, source = ''Feed'', published = p, summary = [],
      author = [], tags = []\<rparr>"

definition example_summary :: "string \<Rightarrow> real \<Rightarrow> ArticleSummary" where
  "example_summary src imp =
     \<lparr>title = ''Title'', url = ''https://example.org/a'', source = src,
      published = ''2024-01-01 00:00:00'', summary = [], key_points = [],
      importance_score = imp, category = ''Tech''\<rparr>"

text \<open>A \<open>strptime\<close> that rejects every string, and one that reads a single timestamp.\<close>

definition strptime_none :: strptime where
  "strptime_none s fmt = None"

definition strptime_origin :: strptime where
  "strptime_origin s fmt =
     (if s = ''2024-01-01 00:00:00'' \<and> fmt = ''%Y-%m-%d %H:%M:%S'' then Some 0 else None)"

definition hour :: int where
  "hour = 3600000000"

definition example_pool :: "ArticleSummary list" where
  "example_pool =
     [example_summary ''A'' 7, example_summary ''B'' 1, example_summary ''A'' 9,
      example_summary ''A'' 8]"

definition example_feed :: "RawArticle list" where
  "example_feed =
     [example_raw ''Quarterly results'' ''https://example.org/1'' 0,
      example_raw ''New AI model'' ''https://example.org/2'' 0,
      example_raw ''New phone'' ''https://example.org/3'' 0,
      example_raw ''Quarterly results again'' ''https://example.org/1'' 0]"

definition example_str :: "datetime \<Rightarrow> string" where
  "example_str d = ''2024-01-01 00:00:00''"

text \<open>
  Three candidates of which the second and the third tie at 4 after the first is selected,
  when the arithmetic is exact; a rounding that differs from the exact result at one value
  only, as the double product \<open>0.2 * 3.0 = 0.6000000000000001\<close> does; and a clock that moves
  with every reading.
\<close>

definition example_tagged :: "string \<Rightarrow> string \<Rightarrow> real \<Rightarrow> ArticleSummary" where
  "example_tagged src cat imp =
     \<lparr>title = ''Title'', url = ''https://example.org/a'', source = src,
      published = ''2024-01-01 00:00:00'', summary = [], key_points = [],
      importance_score = imp, category = cat\<rparr>"

definition example_tie :: "ArticleSummary list" where
  "example_tie =
     [example_tagged ''B'' ''AI/ML'' 6, example_tagged ''B'' ''AI/ML'' 6,
      example_tagged ''A'' ''Tech'' 5]"

definition example_rounding :: rounding where
  "example_rounding x = (if x = 6 / 10 then 6 / 10 + 1 / 10 ^ 16 else x)"

definition example_clock :: "nat \<Rightarrow> datetime" where
  "example_clock k = int k"

section \<open>Helper lemmas: strings\<close>

lemma startswith_prefix: "startswith s k \<longleftrightarrow> prefix k s"
  by (induction s k rule: startswith.induct) auto

lemma str_in_sublist: "str_in k s \<longleftrightarrow> sublist k s"
  by (induction s) (auto simp: startswith_prefix sublist_Cons_right)

lemma importance_loop_count:
  "importance_loop t ks score = score + 0.5 * real (length (filter (\<lambda>k. str_in k t) ks))"
  by (induction ks arbitrary: score) (auto simp: algebra_simps)

lemma distinct_important_keywords: "distinct important_keywords"
  by (simp add: important_keywords_def)

lemma keyword_loop_ex: "keyword_loop t ks \<longleftrightarrow> (\<exists>k \<in> set ks. sublist k t)"
  by (induction ks) (auto simp: str_in_sublist)

lemma category_loop_find:
  "category_loop t tbl =
     (case find (\<lambda>(cat, keywords). \<exists>k \<in> set keywords. sublist k t) tbl of
        None \<Rightarrow> ''Tech'' | Some (cat, keywords) \<Rightarrow> cat)"
  by (induction tbl) (auto simp: keyword_loop_ex)

lemma parse_formats_None:
  "(\<forall>fmt \<in> set fmts. strptime s fmt = None) \<Longrightarrow> parse_formats strptime s fmts = None"
  by (induction fmts) auto

section \<open>Helper lemmas: deduplication\<close>

lemma deduplicate_loop_acc:
  "deduplicate_loop xs seen acc = acc @ deduplicate_loop xs seen []"
proof (induction xs arbitrary: seen acc)
  case Nil
  then show ?case by simp
next
  case (Cons a xs)
  show ?case
    using Cons.IH[of "insert (RawArticle.url a) seen" "acc @ [a]"]
          Cons.IH[of "insert (RawArticle.url a) seen" "[a]"]
          Cons.IH[of seen acc]
    by simp
qed

lemma deduplicate_loop_Cons:
  "deduplicate_loop (a # xs) seen [] =
     (if RawArticle.url a \<notin> seen
      then a # deduplicate_loop xs (insert (RawArticle.url a) seen) []
      else deduplicate_loop xs seen [])"
  using deduplicate_loop_acc[of xs "insert (RawArticle.url a) seen" "[a]"] by simp

lemma deduplicate_loop_subseq: "subseq (deduplicate_loop xs seen []) xs"
  by (induction xs arbitrary: seen) (auto simp: deduplicate_loop_Cons simp del: deduplicate_loop.simps(2))

lemma deduplicate_loop_urls:
  "RawArticle.url ` set (deduplicate_loop xs seen []) = RawArticle.url ` set xs - seen"
  by (induction xs arbitrary: seen) (auto simp: deduplicate_loop_Cons simp del: deduplicate_loop.simps(2))

lemma deduplicate_loop_distinct:
  "distinct (map RawArticle.url (deduplicate_loop xs seen []))"
proof (induction xs arbitrary: seen)
  case Nil
  show ?case by simp
next
  case (Cons a xs)
  have "RawArticle.url a \<notin> RawArticle.url ` set (deduplicate_loop xs (insert (RawArticle.url a) seen) [])"
    by (simp add: deduplicate_loop_urls)
  with Cons.IH show ?case
    by (simp add: deduplicate_loop_Cons del: deduplicate_loop.simps(2))
qed

lemma deduplicate_loop_first:
  "a \<in> set (deduplicate_loop xs seen []) \<Longrightarrow>
   find (\<lambda>b. RawArticle.url b = RawArticle.url a) xs = Some a"
proof (induction xs arbitrary: seen)
  case Nil
  then show ?case by simp
next
  case (Cons x xs)
  show ?case
  proof (cases "RawArticle.url x \<in> seen")
    case True
    with Cons.prems have mem: "a \<in> set (deduplicate_loop xs seen [])"
      by (simp add: deduplicate_loop_Cons del: deduplicate_loop.simps(2))
    then have "RawArticle.url a \<in> RawArticle.url ` set xs - seen"
      using deduplicate_loop_urls[of xs seen] by blast
    with True have "RawArticle.url x \<noteq> RawArticle.url a" by auto
    with Cons.IH[OF mem] show ?thesis by simp
  next
    case False
    with Cons.prems have "a = x \<or> a \<in> set (deduplicate_loop xs (insert (RawArticle.url x) seen) [])"
      by (simp add: deduplicate_loop_Cons del: deduplicate_loop.simps(2))
    then show ?thesis
    proof
      assume "a = x" then show ?thesis by simp
    next
      assume mem: "a \<in> set (deduplicate_loop xs (insert (RawArticle.url x) seen) [])"
      then have "RawArticle.url a \<in> RawArticle.url ` set xs - insert (RawArticle.url x) seen"
        using deduplicate_loop_urls[of xs "insert (RawArticle.url x) seen"] by blast
      then have "RawArticle.url x \<noteq> RawArticle.url a" by auto
      with Cons.IH[OF mem] show ?thesis by simp
    qed
  qed
qed

lemma deduplicate_loop_id:
  "distinct (map RawArticle.url xs) \<Longrightarrow> RawArticle.url ` set xs \<inter> seen = {} \<Longrightarrow>
   deduplicate_loop xs seen [] = xs"
proof (induction xs arbitrary: seen)
  case Nil
  show ?case by simp
next
  case (Cons a xs)
  from Cons.prems have "RawArticle.url a \<notin> seen" by auto
  moreover from Cons.prems have "RawArticle.url ` set xs \<inter> insert (RawArticle.url a) seen = {}"
    by auto
  moreover from Cons.prems have "distinct (map RawArticle.url xs)" by simp
  ultimately show ?case
    using Cons.IH[of "insert (RawArticle.url a) seen"]
    by (simp add: deduplicate_loop_Cons del: deduplicate_loop.simps(2))
qed

section \<open>Helper lemmas: scores\<close>

lemma recency_ge_1: "1 \<le> calculate_recency_score strptime now p"
  by (simp add: calculate_recency_score_def Let_def split: option.splits)

lemma penalty_loop_acc: "penalty_loop a sel p = p + penalty_loop a sel 0"
proof (induction sel arbitrary: p)
  case Nil
  show ?case by simp
next
  case (Cons s sel)
  show ?case
    using Cons.IH[of "p + 2 + 1"] Cons.IH[of "p + 2"] Cons.IH[of "p + 1"] Cons.IH[of p]
          Cons.IH[of "2 + 1"] Cons.IH[of "2"] Cons.IH[of "1"]
    by (simp add: Let_def)
qed

lemma calculate_final_score_nonneg: "0 \<le> calculate_final_score rk strptime now a sel"
  by (simp add: calculate_final_score_def Let_def)

section \<open>Helper lemmas: the cap-based selection loops\<close>

lemma sorted_wrt_subseq:
  "subseq ys xs \<Longrightarrow> sorted_wrt R xs \<Longrightarrow> sorted_wrt R ys"
proof (induction rule: list_emb.induct)
  case (list_emb_Nil ys)
  show ?case by simp
next
  case (list_emb_Cons xs ys y)
  then show ?case by simp
next
  case (list_emb_Cons2 x y xs ys)
  have "set xs \<subseteq> set ys"
  proof
    fix z assume "z \<in> set xs"
    from list_emb_set[OF list_emb_Cons2.hyps(2) this] show "z \<in> set ys" by auto
  qed
  with list_emb_Cons2 show ?case by auto
qed

lemma sorted_by_importance_descending:
  "sorted_wrt (\<lambda>a b. importance_score a \<ge> importance_score b)
     (sort_key (\<lambda>s. - importance_score s) xs)"
proof -
  have "sorted (map (\<lambda>s. - importance_score s) (sort_key (\<lambda>s. - importance_score s) xs))"
    by (rule sorted_sort_key)
  then show ?thesis by (simp add: sorted_map)
qed

lemma diversity_loop_length:
  "length sel \<le> nat n \<Longrightarrow> length (diversity_loop n m xs sel cnt) \<le> nat n"
  by (induction xs arbitrary: sel cnt) auto

lemma diversity_loop_cap:
  "(\<forall>s. cnt s = int (count_source s sel)) \<Longrightarrow> (\<forall>s. int (count_source s sel) \<le> m) \<Longrightarrow>
   int (count_source s (diversity_loop n m xs sel cnt)) \<le> m"
proof (induction xs arbitrary: sel cnt)
  case Nil
  then show ?case by simp
next
  case (Cons a xs)
  show ?case
  proof (cases "int (length sel) \<ge> n")
    case True
    with Cons.prems show ?thesis by simp
  next
    case False
    show ?thesis
    proof (cases "cnt (source a) < m")
      case True
      have c: "\<forall>s. (cnt(source a := cnt (source a) + 1)) s = int (count_source s (sel @ [a]))"
        using Cons.prems(1) by auto
      have b: "\<forall>s. int (count_source s (sel @ [a])) \<le> m"
        using Cons.prems True by auto
      have "int (count_source s (diversity_loop n m xs (sel @ [a])
                  (cnt(source a := cnt (source a) + 1)))) \<le> m"
        using c b by (rule Cons.IH)
      with False True show ?thesis by simp
    next
      case nlt: False
      from Cons.IH[OF Cons.prems] False nlt show ?thesis by simp
    qed
  qed
qed

lemma diversity_loop_subseq:
  "\<exists>ys. diversity_loop n m xs sel cnt = sel @ ys \<and> subseq ys xs"
proof (induction xs arbitrary: sel cnt)
  case Nil
  show ?case by simp
next
  case (Cons a xs)
  obtain ys1 where y1: "diversity_loop n m xs (sel @ [a]) (cnt(source a := cnt (source a) + 1))
                        = (sel @ [a]) @ ys1" "subseq ys1 xs"
    using Cons.IH by blast
  obtain ys2 where y2: "diversity_loop n m xs sel cnt = sel @ ys2" "subseq ys2 xs"
    using Cons.IH by blast
  show ?case
  proof (cases "int (length sel) \<ge> n")
    case True
    then show ?thesis by simp
  next
    case False
    show ?thesis
    proof (cases "cnt (source a) < m")
      case True
      with False y1 have "diversity_loop n m (a # xs) sel cnt = sel @ (a # ys1)" by simp
      moreover have "subseq (a # ys1) (a # xs)" using y1(2) by simp
      ultimately show ?thesis by blast
    next
      case nlt: False
      with False y2 have "diversity_loop n m (a # xs) sel cnt = sel @ ys2" by simp
      moreover have "subseq ys2 (a # xs)" using y2(2) by (rule list_emb_Cons)
      ultimately show ?thesis by blast
    qed
  qed
qed

lemma selection_loop_length:
  "length sel \<le> nat n \<Longrightarrow> length (selection_loop n xs sel cnt) \<le> nat n"
  by (induction xs arbitrary: sel cnt) auto

lemma selection_loop_cap:
  "(\<forall>s. dict_get cnt s 0 = int (count_source s sel)) \<Longrightarrow> (\<forall>s. count_source s sel \<le> 2) \<Longrightarrow>
   count_source s (selection_loop n xs sel cnt) \<le> 2"
proof (induction xs arbitrary: sel cnt)
  case Nil
  then show ?case by simp
next
  case (Cons a xs)
  show ?case
  proof (cases "int (length sel) \<ge> n")
    case True
    with Cons.prems show ?thesis by simp
  next
    case False
    show ?thesis
    proof (cases "dict_get cnt (source a) 0 < 2")
      case True
      have c: "\<forall>s. dict_get (cnt(source a \<mapsto> dict_get cnt (source a) 0 + 1)) s 0
                   = int (count_source s (sel @ [a]))"
        using Cons.prems(1) by (auto simp: dict_get_def)
      have b: "\<forall>s. count_source s (sel @ [a]) \<le> 2"
      proof
        fix s
        show "count_source s (sel @ [a]) \<le> 2"
          using Cons.prems(1)[rule_format, of s] Cons.prems(2)[rule_format, of s] True
          by auto
      qed
      have "count_source s (selection_loop n xs (sel @ [a])
                  (cnt(source a \<mapsto> dict_get cnt (source a) 0 + 1))) \<le> 2"
        using c b by (rule Cons.IH)
      with False True show ?thesis by simp
    next
      case nlt: False
      from Cons.IH[OF Cons.prems] False nlt show ?thesis by simp
    qed
  qed
qed

lemma selection_loop_subseq:
  "\<exists>ys. selection_loop n xs sel cnt = sel @ ys \<and> subseq ys xs"
proof (induction xs arbitrary: sel cnt)
  case Nil
  show ?case by simp
next
  case (Cons a xs)
  obtain ys1 where y1: "selection_loop n xs (sel @ [a])
                          (cnt(source a \<mapsto> dict_get cnt (source a) 0 + 1))
                        = (sel @ [a]) @ ys1" "subseq ys1 xs"
    using Cons.IH by blast
  obtain ys2 where y2: "selection_loop n xs sel cnt = sel @ ys2" "subseq ys2 xs"
    using Cons.IH by blast
  show ?case
  proof (cases "int (length sel) \<ge> n")
    case True
    then show ?thesis by simp
  next
    case False
    show ?thesis
    proof (cases "dict_get cnt (source a) 0 < 2")
      case True
      with False y1 have "selection_loop n (a # xs) sel cnt = sel @ (a # ys1)" by simp
      moreover have "subseq (a # ys1) (a # xs)" using y1(2) by simp
      ultimately show ?thesis by blast
    next
      case nlt: False
      with False y2 have "selection_loop n (a # xs) sel cnt = sel @ ys2" by simp
      moreover have "subseq ys2 (a # xs)" using y2(2) by (rule list_emb_Cons)
      ultimately show ?thesis by blast
    qed
  qed
qed

lemma ensure_source_diversity_props:
  "length (ensure_source_diversity summaries n 2) \<le> nat n"
  "count_source s (ensure_source_diversity summaries n 2) \<le> 2"
  "subseq (ensure_source_diversity summaries n 2) (sorted_by_importance summaries)"
  "sorted_wrt (\<lambda>a b. importance_score a \<ge> importance_score b)
     (ensure_source_diversity summaries n 2)"
proof -
  show "length (ensure_source_diversity summaries n 2) \<le> nat n"
    by (simp add: ensure_source_diversity_def diversity_loop_length)
  have "int (count_source s (ensure_source_diversity summaries n 2)) \<le> 2"
    unfolding ensure_source_diversity_def by (rule diversity_loop_cap) simp_all
  then show "count_source s (ensure_source_diversity summaries n 2) \<le> 2" by simp
  show sub: "subseq (ensure_source_diversity summaries n 2) (sorted_by_importance summaries)"
    using diversity_loop_subseq[of n 2 "sorted_by_importance summaries" "[]" "\<lambda>_. 0"]
    by (auto simp: ensure_source_diversity_def)
  show "sorted_wrt (\<lambda>a b. importance_score a \<ge> importance_score b)
     (ensure_source_diversity summaries n 2)"
    using sorted_wrt_subseq[OF sub] sorted_by_importance_descending[of summaries]
    by (simp add: sorted_by_importance_def)
qed

lemma run_articles:
  "articles (fst (run top_n today now str_datetime raw)) =
     (if deduplicate (filter_today_articles now raw 7) = [] then []
      else selection_loop top_n
             (sort_key (\<lambda>x. - importance_score x)
                (map (make_summary str_datetime)
                   (take 100 (deduplicate (filter_today_articles now raw 7)))))
             [] Map.empty)"
  by (simp add: run_def Let_def)

lemma run_articles_props:
  "length (articles (fst (run top_n today now str_datetime raw))) \<le> nat top_n"
  "count_source s (articles (fst (run top_n today now str_datetime raw))) \<le> 2"
  "sorted_wrt (\<lambda>a b. importance_score a \<ge> importance_score b)
     (articles (fst (run top_n today now str_datetime raw)))"
proof -
  let ?xs = "sort_key (\<lambda>x. - importance_score x)
                (map (make_summary str_datetime)
                   (take 100 (deduplicate (filter_today_articles now raw 7))))"
  show "length (articles (fst (run top_n today now str_datetime raw))) \<le> nat top_n"
    by (simp add: run_articles selection_loop_length)
  have "count_source s (selection_loop top_n ?xs [] Map.empty) \<le> 2"
    by (rule selection_loop_cap) (simp_all add: dict_get_def)
  then show "count_source s (articles (fst (run top_n today now str_datetime raw))) \<le> 2"
    by (simp add: run_articles)
  have "subseq (selection_loop top_n ?xs [] Map.empty) ?xs"
    using selection_loop_subseq[of top_n ?xs "[]" Map.empty] by auto
  then have "sorted_wrt (\<lambda>a b. importance_score a \<ge> importance_score b)
               (selection_loop top_n ?xs [] Map.empty)"
    using sorted_wrt_subseq sorted_by_importance_descending by blast
  then show "sorted_wrt (\<lambda>a b. importance_score a \<ge> importance_score b)
     (articles (fst (run top_n today now str_datetime raw)))"
    by (simp add: run_articles)
qed

section \<open>Helper lemmas: the greedy loop\<close>

lemma takeWhile_length_less:
  "\<exists>x \<in> set xs. \<not> P x \<Longrightarrow> length (takeWhile P xs) < length xs"
  by (induction xs) auto

lemma highest_scoring_index_less:
  "scores \<noteq> [] \<Longrightarrow> highest_scoring_index scores < length scores"
proof -
  assume ne: "scores \<noteq> []"
  then have "Max (set scores) \<in> set scores" by (intro Max_in) auto
  then have "\<exists>x \<in> set scores. \<not> x \<noteq> Max (set scores)" by auto
  then show ?thesis
    unfolding highest_scoring_index_def by (rule takeWhile_length_less)
qed

lemma best_scan_fp_char:
  "best_scan_fp f xs i (bs, bi) =
     (if \<forall>s \<in> set (map (\<lambda>(j, a). f j a) (enumerate i xs)). s \<le> bs then (bs, bi)
      else (Max (set (map (\<lambda>(j, a). f j a) (enumerate i xs))),
            i + length (takeWhile
                  (\<lambda>s. s \<noteq> Max (set (map (\<lambda>(j, a). f j a) (enumerate i xs))))
                  (map (\<lambda>(j, a). f j a) (enumerate i xs)))))"
proof (induction xs arbitrary: i bs bi)
  case Nil
  show ?case by simp
next
  case (Cons x xs)
  let ?v = "f i x"
  let ?ss = "map (\<lambda>(j, a). f j a) (enumerate (Suc i) xs)"
  have unfold: "map (\<lambda>(j, a). f j a) (enumerate i (x # xs)) = ?v # ?ss" by simp
  have fin: "finite (set ?ss)" by simp
  show ?case
  proof (cases "\<forall>s \<in> set ?ss. s \<le> max bs ?v")
    case True
    then have le: "\<And>s. s \<in> set ?ss \<Longrightarrow> s \<le> max bs ?v" by blast
    show ?thesis
    proof (cases "?v > bs")
      case gt: True
      then have all: "\<forall>s \<in> set ?ss. s \<le> ?v" using le by (auto simp: max_def)
      have M: "Max (set (?v # ?ss)) = ?v"
        using all by (intro Max_eqI) auto
      have nall: "\<not> (\<forall>s \<in> set (?v # ?ss). s \<le> bs)" using gt by auto
      have rhs: "(if \<forall>s \<in> set (?v # ?ss). s \<le> bs then (bs, bi)
            else (Max (set (?v # ?ss)),
                  i + length (takeWhile (\<lambda>s. s \<noteq> Max (set (?v # ?ss))) (?v # ?ss))))
          = (?v, i)"
        using nall by (simp only: M if_False) simp
      have "best_scan_fp f (x # xs) i (bs, bi) = best_scan_fp f xs (Suc i) (?v, i)"
        using gt by simp
      also have "\<dots> = (?v, i)" by (subst Cons.IH) (rule if_P[OF all])
      finally show ?thesis unfolding unfold rhs .
    next
      case ngt: False
      then have all: "\<forall>s \<in> set ?ss. s \<le> bs" using le by (auto simp: max_def)
      have all': "\<forall>s \<in> set (?v # ?ss). s \<le> bs" using all ngt by auto
      have rhs: "(if \<forall>s \<in> set (?v # ?ss). s \<le> bs then (bs, bi)
            else (Max (set (?v # ?ss)),
                  i + length (takeWhile (\<lambda>s. s \<noteq> Max (set (?v # ?ss))) (?v # ?ss))))
          = (bs, bi)"
        using all' by (rule if_P)
      have "best_scan_fp f (x # xs) i (bs, bi) = best_scan_fp f xs (Suc i) (bs, bi)"
        using ngt by simp
      also have "\<dots> = (bs, bi)" by (subst Cons.IH) (rule if_P[OF all])
      finally show ?thesis unfolding unfold rhs .
    qed
  next
    case False
    then obtain y where y0: "y \<in> set ?ss" "\<not> y \<le> max bs ?v" by blast
    then have y: "y \<in> set ?ss" "y > bs" "y > ?v" by auto
    have ne: "set ?ss \<noteq> {}" using y(1) by auto
    have My: "y \<le> Max (set ?ss)" by (rule Max_ge[OF fin y(1)])
    have M: "Max (set (?v # ?ss)) = Max (set ?ss)"
      using ne My y(3) fin by (simp add: max_def)
    have nx: "?v \<noteq> Max (set ?ss)" using My y(3) by simp
    have nall: "\<not> (\<forall>z \<in> set ?ss. z \<le> bs)"
    proof
      assume "\<forall>z \<in> set ?ss. z \<le> bs"
      with y(1) have "y \<le> bs" by blast
      with y(2) show False by simp
    qed
    have nall': "\<not> (\<forall>z \<in> set ?ss. z \<le> ?v)"
    proof
      assume "\<forall>z \<in> set ?ss. z \<le> ?v"
      with y(1) have "y \<le> ?v" by blast
      with y(3) show False by simp
    qed
    have nall'': "\<not> (\<forall>z \<in> set (?v # ?ss). z \<le> bs)"
    proof
      assume a: "\<forall>z \<in> set (?v # ?ss). z \<le> bs"
      have "y \<in> set (?v # ?ss)" using y(1) by (rule list.set_intros(2))
      with a have "y \<le> bs" by blast
      with y(2) show False by simp
    qed
    have rhs: "(if \<forall>s \<in> set (?v # ?ss). s \<le> bs then (bs, bi)
            else (Max (set (?v # ?ss)),
                  i + length (takeWhile (\<lambda>s. s \<noteq> Max (set (?v # ?ss))) (?v # ?ss))))
          = (Max (set ?ss), Suc i + length (takeWhile (\<lambda>s. s \<noteq> Max (set ?ss)) ?ss))"
      using nall'' nx by (simp only: M if_False takeWhile.simps if_True list.size) simp
    show ?thesis
    proof (cases "?v > bs")
      case True
      then have "best_scan_fp f (x # xs) i (bs, bi) = best_scan_fp f xs (Suc i) (?v, i)"
        by simp
      also have "\<dots> = (Max (set ?ss), Suc i + length (takeWhile (\<lambda>s. s \<noteq> Max (set ?ss)) ?ss))"
        by (subst Cons.IH) (rule if_not_P[OF nall'])
      finally show ?thesis unfolding unfold rhs .
    next
      case ngt: False
      then have "best_scan_fp f (x # xs) i (bs, bi) = best_scan_fp f xs (Suc i) (bs, bi)"
        by simp
      also have "\<dots> = (Max (set ?ss), Suc i + length (takeWhile (\<lambda>s. s \<noteq> Max (set ?ss)) ?ss))"
        by (subst Cons.IH) (rule if_not_P[OF nall])
      finally show ?thesis unfolding unfold rhs .
    qed
  qed
qed

lemma scores_nonempty: "xs \<noteq> [] \<Longrightarrow> map f (enumerate k xs) \<noteq> []"
  by (cases xs) simp_all

lemma find_best_fp_eq:
  assumes "remaining \<noteq> []" and "\<forall>k a. score k a selected > - 1"
  shows "find_best_fp score t selected remaining
         = highest_scoring_index
             (map (\<lambda>(i, c). score (t + i) c selected) (enumerate 0 remaining))"
proof -
  let ?ss = "map (\<lambda>(i, c). score (t + i) c selected) (enumerate 0 remaining)"
  have ne: "?ss \<noteq> []" using assms(1) by (rule scores_nonempty)
  then obtain s where s: "s \<in> set ?ss" by (cases ?ss) auto
  then have gt: "s > - 1" using assms(2) by auto
  have "\<not> (\<forall>z \<in> set ?ss. z \<le> - 1)"
  proof
    assume "\<forall>z \<in> set ?ss. z \<le> - 1"
    with s have "s \<le> - 1" by blast
    with gt show False by simp
  qed
  then show ?thesis
    by (simp only: find_best_fp_def best_scan_fp_char if_False snd_conv
                   highest_scoring_index_def add_0)
qed

lemma get_top_n_loop_fp_greedy:
  "\<forall>k a sel. score k a sel > - 1 \<Longrightarrow>
   get_top_n_loop_fp score n t selected remaining
   = Some (greedy_rounds_fp score (nat (n - int (length selected))) t selected remaining)"
proof (induction score n t selected remaining rule: get_top_n_loop_fp.induct)
  case (1 score n t selected remaining)
  show ?case
  proof (cases "int (length selected) < n \<and> remaining \<noteq> []")
    case True
    let ?i = "find_best_fp score t selected remaining"
    let ?ss = "map (\<lambda>(i, c). score (t + i) c selected) (enumerate 0 remaining)"
    let ?sel = "selected @ [remaining ! ?i]"
    let ?rem = "take ?i remaining @ drop (Suc ?i) remaining"
    have ieq: "?i = highest_scoring_index ?ss"
      using find_best_fp_eq[of remaining score selected t] True "1.prems" by blast
    have ne: "?ss \<noteq> []" using True by (intro scores_nonempty) simp
    have "highest_scoring_index ?ss < length ?ss"
      using ne by (rule highest_scoring_index_less)
    then have ilt: "?i < length remaining"
      using ieq by simp
    have k: "nat (n - int (length selected)) = Suc (nat (n - int (length ?sel)))"
      using True by auto
    have "get_top_n_loop_fp score n t selected remaining
          = get_top_n_loop_fp score n (t + length remaining) ?sel ?rem"
      using True ilt by (subst get_top_n_loop_fp.simps) (simp del: get_top_n_loop_fp.simps)
    also have "\<dots> = Some (greedy_rounds_fp score (nat (n - int (length ?sel)))
                          (t + length remaining) ?sel ?rem)"
      using "1.IH"[OF True ilt "1.prems"] .
    also have "\<dots> = Some (greedy_rounds_fp score (nat (n - int (length selected)))
                          t selected remaining)"
      unfolding k using True ieq by (simp add: Let_def del: get_top_n_loop_fp.simps)
    finally show ?thesis .
  next
    case False
    then have "get_top_n_loop_fp score n t selected remaining = Some selected"
      by (subst get_top_n_loop_fp.simps) (simp del: get_top_n_loop_fp.simps)
    moreover have "greedy_rounds_fp score (nat (n - int (length selected))) t selected remaining
                   = selected"
      using False by (cases "nat (n - int (length selected))") auto
    ultimately show ?thesis by simp
  qed
qed

lemma calculate_final_score_fp_nonneg:
  "0 \<le> calculate_final_score_fp rnd rk strptime now a sel"
  by (simp add: calculate_final_score_fp_def Let_def)

text \<open>
  With the identity as rounding and a clock that stands still, the floating-point
  definitions are the exact ones.
\<close>

lemma hours_between_fp_exact: "hours_between_fp (\<lambda>x. x) now d = hours_between now d"
  by (simp add: hours_between_fp_def hours_between_def)

lemma calculate_recency_score_fp_exact:
  "calculate_recency_score_fp (\<lambda>x. x) strptime now p = calculate_recency_score strptime now p"
  by (simp add: calculate_recency_score_fp_def calculate_recency_score_def
                hours_between_fp_exact split: option.splits)

lemma penalty_loop_fp_exact: "penalty_loop_fp (\<lambda>x. x) a sel p = penalty_loop a sel p"
  by (induction sel arbitrary: p) (simp_all add: Let_def)

lemma calculate_final_score_fp_exact:
  "calculate_final_score_fp (\<lambda>x. x) rk strptime now a sel
   = calculate_final_score rk strptime now a sel"
  by (simp add: calculate_final_score_fp_def calculate_final_score_def
                calculate_recency_score_fp_exact calculate_diversity_penalty_fp_def
                calculate_diversity_penalty_def penalty_loop_fp_exact)

lemma calculate_final_score_fp_exact_fun:
  "calculate_final_score_fp (\<lambda>x. x) rk strptime now = calculate_final_score rk strptime now"
  by (intro ext) (rule calculate_final_score_fp_exact)

lemma best_scan_fp_const: "best_scan_fp (\<lambda>i. f) xs i st = best_scan f xs i st"
proof (induction xs arbitrary: i st)
  case Nil
  show ?case by simp
next
  case (Cons x xs)
  obtain bs bi where st: "st = (bs, bi)" by (cases st)
  show ?case unfolding st using Cons.IH by simp
qed

lemma find_best_fp_const:
  "find_best_fp (\<lambda>k. score) t selected remaining = find_best score selected remaining"
  by (simp add: find_best_fp_def find_best_def best_scan_fp_const)

lemma get_top_n_loop_fp_const:
  "get_top_n_loop_fp (\<lambda>k. score) n t selected remaining
   = get_top_n_loop score n selected remaining"
proof (induction score n selected remaining arbitrary: t rule: get_top_n_loop.induct)
  case (1 score n selected remaining)
  show ?case
  proof (cases "int (length selected) < n \<and> remaining \<noteq> []
                \<and> find_best score selected remaining < length remaining")
    case True
    then have c1: "int (length selected) < n \<and> remaining \<noteq> []"
      and c2: "find_best score selected remaining < length remaining" by auto
    show ?thesis
      using "1.IH"[OF c1 c2, of "t + length remaining"] c1 c2
      by (subst get_top_n_loop_fp.simps, subst get_top_n_loop.simps)
         (simp add: find_best_fp_const del: get_top_n_loop_fp.simps get_top_n_loop.simps)
  next
    case False
    then show ?thesis
      by (subst get_top_n_loop_fp.simps, subst get_top_n_loop.simps)
         (auto simp add: find_best_fp_const simp del: get_top_n_loop_fp.simps get_top_n_loop.simps)
  qed
qed

lemma get_top_n_fp_exact:
  "get_top_n_fp (\<lambda>x. x) rk strptime (\<lambda>k. now) summaries n
   = get_top_n rk strptime now summaries n"
  by (simp add: get_top_n_fp_def get_top_n_def calculate_final_score_fp_exact_fun
                get_top_n_loop_fp_const del: get_top_n_loop_fp.simps get_top_n_loop.simps)

lemma map_enumerate_const: "map (\<lambda>(i, c). g c) (enumerate k xs) = map g xs"
  by (induction xs arbitrary: k) simp_all

lemma greedy_rounds_fp_const:
  "greedy_rounds_fp (\<lambda>k. score) m t selected pool = greedy_rounds score m selected pool"
  by (induction m arbitrary: t selected pool) (simp_all add: Let_def map_enumerate_const)

lemma reference_greedy_fp_exact:
  "reference_greedy_fp (\<lambda>x. x) rk strptime (\<lambda>k. now) summaries n
   = reference_greedy rk strptime now summaries n"
  by (simp add: reference_greedy_fp_def reference_greedy_def
                calculate_final_score_fp_exact_fun greedy_rounds_fp_const)

section \<open>Helper lemmas: evaluation at concrete inputs\<close>

lemma lower_new_new: "lower ''New new'' = ''new new''"
  by code_simp

lemma importance_loop_new_new: "importance_loop ''new new'' important_keywords 5 = 5.5"
  by (simp add: important_keywords_def)

lemma occurrences_new_new:
  "map (\<lambda>k. count_occurrences k ''new new'') important_keywords
   = [0, 0, 0, 0, 0, 0, 2, 0, 0, 0, 0, 0, 0, 0, 0, 0]"
  by (simp add: important_keywords_def)

lemma lower_apple_chip:
  "lower ''Apple announces new AI chip'' = ''apple announces new ai chip''"
  by code_simp

lemma importance_loop_apple_chip:
  "importance_loop ''apple announces new ai chip'' important_keywords 5 = 7"
  by (simp add: important_keywords_def)

lemma scores_without_date:
  "calculate_recency_score strptime_none now (Str s) = 5"
  by (simp add: calculate_recency_score_def parse_published_def date_formats_def
                strptime_none_def)

lemma final_score_example:
  "calculate_final_score default_ranker strptime_none now (example_summary src imp) [] =
     max 0 (0.6 * imp + 1)"
  by (simp add: calculate_final_score_def default_ranker_def scores_without_date
                calculate_diversity_penalty_def example_summary_def Let_def)

lemma final_score_example_after:
  "calculate_final_score default_ranker strptime_none now (example_summary ''A'' 1)
     [example_summary ''B'' 9] = 1.4"
  by (simp add: calculate_final_score_def default_ranker_def scores_without_date
                calculate_diversity_penalty_def example_summary_def Let_def)

lemma greedy_example:
  "reference_greedy default_ranker strptime_none 0
     [example_summary ''A'' 1, example_summary ''B'' 9] 2
   = [example_summary ''B'' 9, example_summary ''A'' 1]"
  by (simp add: reference_greedy_def eval_nat_numeral highest_scoring_index_def
                final_score_example final_score_example_after Let_def)

lemma examples_differ: "example_summary ''A'' 1 \<noteq> example_summary ''B'' 9"
  by (simp add: example_summary_def)

lemma recency_fp_without_date:
  "calculate_recency_score_fp rnd strptime_none now (Str s) = 5"
  by (simp add: calculate_recency_score_fp_def parse_published_def date_formats_def
                strptime_none_def)

lemma tie_scores_round_1:
  "calculate_final_score_fp example_rounding default_ranker strptime_none now
     (example_tagged ''B'' ''AI/ML'' 6) [] = 4.6"
  "calculate_final_score_fp example_rounding default_ranker strptime_none now
     (example_tagged ''A'' ''Tech'' 5) [] = 4"
  by (simp_all add: calculate_final_score_fp_def default_ranker_def recency_fp_without_date
                calculate_diversity_penalty_fp_def example_tagged_def example_rounding_def
                Let_def)

lemma tie_scores_round_2:
  "calculate_final_score_fp example_rounding default_ranker strptime_none now
     (example_tagged ''B'' ''AI/ML'' 6) [example_tagged ''B'' ''AI/ML'' 6] = 4 - 1 / 10 ^ 16"
  "calculate_final_score_fp example_rounding default_ranker strptime_none now
     (example_tagged ''A'' ''Tech'' 5) [example_tagged ''B'' ''AI/ML'' 6] = 4"
  by (simp_all add: calculate_final_score_fp_def default_ranker_def recency_fp_without_date
                calculate_diversity_penalty_fp_def example_tagged_def example_rounding_def
                Let_def)

lemma tie_scores_exact_round_2:
  "calculate_final_score_fp (\<lambda>x. x) default_ranker strptime_none now
     (example_tagged ''B'' ''AI/ML'' 6) [example_tagged ''B'' ''AI/ML'' 6] = 4"
  "calculate_final_score_fp (\<lambda>x. x) default_ranker strptime_none now
     (example_tagged ''A'' ''Tech'' 5) [example_tagged ''B'' ''AI/ML'' 6] = 4"
  "calculate_final_score_fp (\<lambda>x. x) default_ranker strptime_none now
     (example_tagged ''B'' ''AI/ML'' 6) [] = 4.6"
  "calculate_final_score_fp (\<lambda>x. x) default_ranker strptime_none now
     (example_tagged ''A'' ''Tech'' 5) [] = 4"
  by (simp_all add: calculate_final_score_fp_def default_ranker_def recency_fp_without_date
                calculate_diversity_penalty_fp_def example_tagged_def
                Let_def)

lemma greedy_tie_rounded:
  "reference_greedy_fp example_rounding default_ranker strptime_none example_clock example_tie 2
   = [example_tagged ''B'' ''AI/ML'' 6, example_tagged ''A'' ''Tech'' 5]"
  by (simp add: reference_greedy_fp_def example_tie_def eval_nat_numeral
                highest_scoring_index_def tie_scores_round_1 tie_scores_round_2 Let_def)

lemma greedy_tie_exact:
  "reference_greedy_fp (\<lambda>x. x) default_ranker strptime_none example_clock example_tie 2
   = [example_tagged ''B'' ''AI/ML'' 6, example_tagged ''B'' ''AI/ML'' 6]"
  by (simp add: reference_greedy_fp_def example_tie_def eval_nat_numeral
                highest_scoring_index_def tie_scores_exact_round_2 Let_def)

lemma old_article_filtered:
  "deduplicate (filter_today_articles (8 * 24 * hour)
      [example_raw ''Old news'' ''https://example.org/1'' 0] 7) = []"
  by (simp add: deduplicate_def filter_today_articles_def example_raw_def hour_def)

lemma ensure_source_diversity_example:
  "map importance_score (ensure_source_diversity example_pool 3 2) = [9, 8, 1]
   \<and> map source (ensure_source_diversity example_pool 3 2) = [''A'', ''A'', ''B'']"
  by (simp add: ensure_source_diversity_def sorted_by_importance_def example_pool_def
                example_summary_def)

section \<open>The claims\<close>

text \<open>
  C1. For every list of articles and every \<open>n \<ge> 0\<close>, the cap-based selection, both
  \<open>ensure_source_diversity\<close> with \<open>max_per_source = 2\<close> and the selection loop of \<open>run\<close>,
  returns at most \<open>n\<close> articles and never more than 2 with the same source, whatever the
  importance scores are; the articles are admitted in descending order of importance
  score (the result is a subsequence of the list sorted by descending importance).
\<close>

theorem cap_based_selection:
  assumes "0 \<le> n"
  shows "int (length (ensure_source_diversity summaries n 2)) \<le> n
     \<and> (\<forall>s. length (filter (\<lambda>a. source a = s) (ensure_source_diversity summaries n 2)) \<le> 2)
     \<and> subseq (ensure_source_diversity summaries n 2) (sorted_by_importance summaries)
     \<and> sorted_wrt (\<lambda>a b. importance_score a \<ge> importance_score b)
         (ensure_source_diversity summaries n 2)
     \<and> int (length (articles (fst (run n today now str_datetime raw)))) \<le> n
     \<and> (\<forall>s. length (filter (\<lambda>a. source a = s)
                (articles (fst (run n today now str_datetime raw)))) \<le> 2)
     \<and> sorted_wrt (\<lambda>a b. importance_score a \<ge> importance_score b)
         (articles (fst (run n today now str_datetime raw)))"
  using assms ensure_source_diversity_props(1)[of summaries n]
        ensure_source_diversity_props(2)[of _ summaries n]
        ensure_source_diversity_props(3)[of summaries n]
        ensure_source_diversity_props(4)[of summaries n]
        run_articles_props(1)[of n today now str_datetime raw]
        run_articles_props(2)[of _ n today now str_datetime raw]
        run_articles_props(3)[of n today now str_datetime raw]
  by auto

theorem cap_based_selection_witness:
  "int (length (ensure_source_diversity example_pool 3 2)) \<le> 3
     \<and> (\<forall>s. length (filter (\<lambda>a. source a = s) (ensure_source_diversity example_pool 3 2)) \<le> 2)
     \<and> subseq (ensure_source_diversity example_pool 3 2) (sorted_by_importance example_pool)
     \<and> sorted_wrt (\<lambda>a b. importance_score a \<ge> importance_score b)
         (ensure_source_diversity example_pool 3 2)
     \<and> int (length (articles (fst (run 3 ''January 01, 2024'' 0 example_str example_feed)))) \<le> 3
     \<and> (\<forall>s. length (filter (\<lambda>a. source a = s)
                (articles (fst (run 3 ''January 01, 2024'' 0 example_str example_feed)))) \<le> 2)
     \<and> sorted_wrt (\<lambda>a b. importance_score a \<ge> importance_score b)
         (articles (fst (run 3 ''January 01, 2024'' 0 example_str example_feed)))"
proof -
  have h: "(0::int) \<le> 3" by simp
  show ?thesis by (rule cap_based_selection[OF h])
qed

text \<open>
  C2. For two articles \<open>A\<close> and \<open>B\<close> with the same source and an importance score of \<open>B\<close>
  in \<open>[0, 10]\<close>, the final score of \<open>B\<close> after \<open>A\<close> has been selected is strictly less, under
  the default weights, than the final score of \<open>B\<close> against the empty selection.
\<close>

theorem same_source_lowers_score:
  assumes "source A = source B" and "0 \<le> importance_score B" and "importance_score B \<le> 10"
  shows "calculate_final_score default_ranker strptime now B [A]
         < calculate_final_score default_ranker strptime now B []"
proof -
  let ?r = "calculate_recency_score strptime now (Str (published B))"
  have r: "1 \<le> ?r" by (rule recency_ge_1)
  have p: "2 \<le> calculate_diversity_penalty B [A]"
    using assms(1) by (simp add: calculate_diversity_penalty_def Let_def)
  have p0: "calculate_diversity_penalty B [] = 0"
    by (simp add: calculate_diversity_penalty_def)
  show ?thesis
    using r p p0 assms(2)
    by (simp add: calculate_final_score_def default_ranker_def Let_def max_def)
qed

theorem same_source_lowers_score_witness:
  "source (example_summary ''A'' 9) = source (example_summary ''A'' 5)
   \<and> 0 \<le> importance_score (example_summary ''A'' 5)
   \<and> importance_score (example_summary ''A'' 5) \<le> 10
   \<and> calculate_final_score default_ranker strptime_none 0 (example_summary ''A'' 5)
         [example_summary ''A'' 9]
       < calculate_final_score default_ranker strptime_none 0 (example_summary ''A'' 5) []"
proof -
  have h1: "source (example_summary ''A'' 9) = source (example_summary ''A'' 5)"
    by (simp add: example_summary_def)
  have h2: "0 \<le> importance_score (example_summary ''A'' 5)"
    by (simp add: example_summary_def)
  have h3: "importance_score (example_summary ''A'' 5) \<le> 10"
    by (simp add: example_summary_def)
  from same_source_lowers_score[OF h1 h2 h3] h1 h2 h3 show ?thesis by blast
qed

text \<open>
  C3, as stated: for every input list and every \<open>n\<close>, \<open>get_top_n\<close> equals the reference
  greedy algorithm. This fails for a list no longer than \<open>n\<close>: \<open>get_top_n\<close> returns the two
  articles in input order, the greedy algorithm puts the higher-scoring one first.
\<close>

theorem short_pool_is_not_reordered:
  "get_top_n default_ranker strptime_none 0
     [example_summary ''A'' 1, example_summary ''B'' 9] 2
   \<noteq> Some (reference_greedy default_ranker strptime_none 0
              [example_summary ''A'' 1, example_summary ''B'' 9] 2)"
  using examples_differ by (simp only: greedy_example get_top_n_def) simp

text \<open>
  C3, amended: for every input list with more than \<open>n\<close> elements, \<open>get_top_n\<close> returns, and
  its result is that of the reference greedy algorithm: in each round every remaining
  candidate is scored against the current selection and the highest-scoring one, the
  earliest on ties, moves into the selection, until \<open>n\<close> are selected or the pool is empty.
  This holds for the scores as the code computes them: for every rounding of the
  arithmetic, every sequence of clock readings and every choice of weights. The exact
  definitions \<open>get_top_n\<close> and \<open>reference_greedy\<close> are the instance with the identity as
  rounding and a clock that stands still. The witness is at a pool where the rounding
  decides the second selection.
\<close>

theorem get_top_n_greedy_when_longer:
  assumes "int (length summaries) > n"
  shows "get_top_n_fp rnd rk strptime clock summaries n
         = Some (reference_greedy_fp rnd rk strptime clock summaries n)"
proof -
  have pos: "\<forall>k a sel. calculate_final_score_fp rnd rk strptime (clock k) a sel > - 1"
  proof (intro allI)
    fix k a sel
    have "0 \<le> calculate_final_score_fp rnd rk strptime (clock k) a sel"
      by (rule calculate_final_score_fp_nonneg)
    then show "calculate_final_score_fp rnd rk strptime (clock k) a sel > - 1" by simp
  qed
  show ?thesis
    using assms
      get_top_n_loop_fp_greedy
        [of "\<lambda>k. calculate_final_score_fp rnd rk strptime (clock k)", OF pos, of n 0 "[]" summaries]
    by (simp add: get_top_n_fp_def reference_greedy_fp_def del: get_top_n_loop_fp.simps)
qed

theorem get_top_n_greedy_when_longer_witness:
  "int (length example_tie) > 2
   \<and> get_top_n_fp example_rounding default_ranker strptime_none example_clock example_tie 2
       = Some [example_tagged ''B'' ''AI/ML'' 6, example_tagged ''A'' ''Tech'' 5]
   \<and> get_top_n_fp (\<lambda>x. x) default_ranker strptime_none example_clock example_tie 2
       = Some [example_tagged ''B'' ''AI/ML'' 6, example_tagged ''B'' ''AI/ML'' 6]"
proof -
  have h: "int (length example_tie) > 2" by (simp add: example_tie_def)
  from get_top_n_greedy_when_longer
         [OF h, of example_rounding default_ranker strptime_none example_clock]
       get_top_n_greedy_when_longer
         [OF h, of "\<lambda>x. x" default_ranker strptime_none example_clock]
       h
  show ?thesis by (simp only: greedy_tie_rounded greedy_tie_exact)
qed

text \<open>
  C4, as stated: the importance score is 5.0 plus 0.5 for each occurrence of a keyword in
  the title, clamped to 10. This fails for a title in which a keyword occurs twice: the
  code adds 0.5 once for the keyword, not once per occurrence.
\<close>

theorem repeated_keyword_counts_once:
  "calculate_importance (example_raw ''New new'' ''https://example.org/1'' 0) = 5.5
   \<and> spec_importance (example_raw ''New new'' ''https://example.org/1'' 0) = 6"
proof
  show "calculate_importance (example_raw ''New new'' ''https://example.org/1'' 0) = 5.5"
    by (simp add: calculate_importance_def example_raw_def lower_new_new
                  importance_loop_new_new)
  show "spec_importance (example_raw ''New new'' ''https://example.org/1'' 0) = 6"
    by (simp only: spec_importance_def example_raw_def RawArticle.select_convs lower_new_new
                   occurrences_new_new) simp
qed

text \<open>
  C4, amended: the importance score is 5.0 plus 0.5 for each keyword of the fixed set that
  occurs at least once as a substring of the lower-cased title (a keyword counts once,
  however often it occurs), clamped to a maximum of 10.0; the score always lies in
  \<open>[0, 10]\<close>.
\<close>

theorem calculate_importance_formula:
  "calculate_importance article =
     min 10 (5 + 0.5 * real (card {k \<in> set important_keywords.
                                    sublist k (lower (RawArticle.title article))}))
   \<and> 0 \<le> calculate_importance article \<and> calculate_importance article \<le> 10"
proof -
  let ?t = "lower (RawArticle.title article)"
  have "card {k \<in> set important_keywords. sublist k ?t}
        = length (filter (\<lambda>k. str_in k ?t) important_keywords)"
    using distinct_card[of "filter (\<lambda>k. str_in k ?t) important_keywords"]
          distinct_important_keywords
    by (simp add: str_in_sublist)
  then show ?thesis
    by (simp add: calculate_importance_def Let_def importance_loop_count)
qed

theorem calculate_importance_formula_witness:
  "calculate_importance
     (example_raw ''Apple announces new AI chip'' ''https://example.org/1'' 0) = 7
   \<and> 0 \<le> calculate_importance
            (example_raw ''Apple announces new AI chip'' ''https://example.org/1'' 0)
   \<and> calculate_importance
         (example_raw ''Apple announces new AI chip'' ''https://example.org/1'' 0) \<le> 10"
proof -
  have v: "calculate_importance
     (example_raw ''Apple announces new AI chip'' ''https://example.org/1'' 0) = 7"
    by (simp add: calculate_importance_def example_raw_def lower_apple_chip
                  importance_loop_apple_chip)
  from calculate_importance_formula
         [of "example_raw ''Apple announces new AI chip'' ''https://example.org/1'' 0"] v
  show ?thesis by blast
qed

text \<open>
  C5. \<open>deduplicate\<close> returns a subsequence of its input with exactly one article for each
  url of the input, the first one seen with that url; an input without repeated urls is
  returned unchanged.
\<close>

theorem deduplicate_first_seen:
  "subseq (deduplicate as) as
   \<and> distinct (map RawArticle.url (deduplicate as))
   \<and> RawArticle.url ` set (deduplicate as) = RawArticle.url ` set as
   \<and> (\<forall>a \<in> set (deduplicate as). find (\<lambda>b. RawArticle.url b = RawArticle.url a) as = Some a)
   \<and> (distinct (map RawArticle.url as) \<longrightarrow> deduplicate as = as)"
  unfolding deduplicate_def
  using deduplicate_loop_subseq[of as "{}"] deduplicate_loop_distinct[of as "{}"]
        deduplicate_loop_urls[of as "{}"] deduplicate_loop_first[of _ as "{}"]
        deduplicate_loop_id[of as "{}"]
  by auto

theorem deduplicate_first_seen_witness:
  "distinct (map RawArticle.url (take 3 example_feed))
   \<and> deduplicate (take 3 example_feed) = take 3 example_feed
   \<and> deduplicate example_feed = take 3 example_feed
   \<and> distinct (map RawArticle.url (deduplicate example_feed))"
proof -
  have h: "distinct (map RawArticle.url (take 3 example_feed))"
    by (simp add: example_feed_def example_raw_def)
  have v: "deduplicate example_feed = take 3 example_feed"
    by (simp add: deduplicate_def example_feed_def example_raw_def)
  from deduplicate_first_seen[of "take 3 example_feed"] deduplicate_first_seen[of example_feed]
       h v
  show ?thesis by blast
qed

text \<open>
  C6. The recency score of a publication time is 10 when at most 1 hour has elapsed, 9 when
  at most 6, 7 when at most 12, 5 when at most 24, and otherwise the greater of 1 and
  \<open>5 - (hours - 24) / 24\<close>; a string that none of the three formats parses scores 5; an
  article published exactly 30 hours ago scores 4.75.
\<close>

theorem recency_score_buckets:
  "((\<forall>fmt \<in> set date_formats. strptime (take 19 s) fmt = None) \<longrightarrow>
      calculate_recency_score strptime now (Str s) = 5)
   \<and> (parse_published strptime p = Some pub_date \<longrightarrow>
        (hours_between now pub_date \<le> 1 \<longrightarrow> calculate_recency_score strptime now p = 10)
        \<and> (1 < hours_between now pub_date \<and> hours_between now pub_date \<le> 6 \<longrightarrow>
             calculate_recency_score strptime now p = 9)
        \<and> (6 < hours_between now pub_date \<and> hours_between now pub_date \<le> 12 \<longrightarrow>
             calculate_recency_score strptime now p = 7)
        \<and> (12 < hours_between now pub_date \<and> hours_between now pub_date \<le> 24 \<longrightarrow>
             calculate_recency_score strptime now p = 5)
        \<and> (24 < hours_between now pub_date \<longrightarrow>
             calculate_recency_score strptime now p
             = max 1 (5 - (hours_between now pub_date - 24) / 24))
        \<and> (hours_between now pub_date = 30 \<longrightarrow>
             calculate_recency_score strptime now p = 4.75))"
  using parse_formats_None[of date_formats strptime "take 19 s"]
  by (auto simp: calculate_recency_score_def parse_published_def Let_def)

theorem recency_score_buckets_witness:
  "calculate_recency_score strptime_none (30 * hour) (Str ''yesterday'') = 5
   \<and> parse_published strptime_origin (Str ''2024-01-01 00:00:00.123456'') = Some 0
   \<and> hours_between (30 * hour) 0 = 30
   \<and> calculate_recency_score strptime_origin (30 * hour)
         (Str ''2024-01-01 00:00:00.123456'') = 4.75"
proof -
  have h1: "\<forall>fmt \<in> set date_formats. strptime_none (take 19 ''yesterday'') fmt = None"
    by (simp add: strptime_none_def)
  have h2: "parse_published strptime_origin (Str ''2024-01-01 00:00:00.123456'') = Some 0"
    by (simp add: parse_published_def date_formats_def strptime_origin_def)
  have h3: "hours_between (30 * hour) 0 = 30"
    by (simp add: hours_between_def hour_def)
  from recency_score_buckets[of strptime_none "''yesterday''" "30 * hour"]
       recency_score_buckets[of strptime_origin _ "30 * hour"
                                "Str ''2024-01-01 00:00:00.123456''" 0]
       h1 h2 h3
  show ?thesis by blast
qed

text \<open>
  C7. When no article remains after the 7-day window filter and deduplication, \<open>run\<close>
  returns a \<open>DailySummary\<close> with no articles, \<open>total_parsed = 0\<close>, no sources used and
  \<open>total_fetched\<close> equal to the number of raw articles fetched; the progress messages stop
  after the filtering message, so neither enrichment nor ranking is reached.
\<close>

theorem run_empty:
  "deduplicate (filter_today_articles now raw_articles 7) = [] \<Longrightarrow>
   run top_n today now str_datetime raw_articles =
     (\<lparr>date = today, articles = [], total_fetched = int (length raw_articles),
       total_parsed = 0, sources_used = []\<rparr>,
      [Fetching, Found (length raw_articles), Filtered 0])"
  by (simp add: run_def Let_def)

theorem run_empty_witness:
  "deduplicate (filter_today_articles (8 * 24 * hour)
      [example_raw ''Old news'' ''https://example.org/1'' 0] 7) = []
   \<and> run 5 ''January 09, 2024'' (8 * 24 * hour) example_str
         [example_raw ''Old news'' ''https://example.org/1'' 0] =
       (\<lparr>date = ''January 09, 2024'', articles = [],
         total_fetched = int (length [example_raw ''Old news'' ''https://example.org/1'' 0]),
         total_parsed = 0, sources_used = []\<rparr>,
        [Fetching, Found (length [example_raw ''Old news'' ''https://example.org/1'' 0]),
         Filtered 0])"
proof
  show h: "deduplicate (filter_today_articles (8 * 24 * hour)
      [example_raw ''Old news'' ''https://example.org/1'' 0] 7) = []"
    by (rule old_article_filtered)
  show "run 5 ''January 09, 2024'' (8 * 24 * hour) example_str
         [example_raw ''Old news'' ''https://example.org/1'' 0] =
       (\<lparr>date = ''January 09, 2024'', articles = [],
         total_fetched = int (length [example_raw ''Old news'' ''https://example.org/1'' 0]),
         total_parsed = 0, sources_used = []\<rparr>,
        [Fetching, Found (length [example_raw ''Old news'' ''https://example.org/1'' 0]),
         Filtered 0])"
    by (rule run_empty[OF h])
qed

text \<open>
  C8, as stated: a category matches when its keyword set matches a word of the title.
  This fails for titles none of whose words is a keyword: the code looks for each keyword
  as a substring of the whole lower-cased title, so it finds \<open>app\<close> inside \<open>apple\<close>, and
  the two-word keyword \<open>machine learning\<close> across two words.
\<close>

theorem keyword_matches_inside_word:
  "categorize_article (example_raw ''Apple pie'' ''https://example.org/1'' 0) = ''Software''
   \<and> spec_categorize (example_raw ''Apple pie'' ''https://example.org/1'' 0) = ''Tech''
   \<and> categorize_article (example_raw ''Machine learning'' ''https://example.org/2'' 0)
       = ''AI/ML''
   \<and> spec_categorize (example_raw ''Machine learning'' ''https://example.org/2'' 0)
       = ''Tech''"
  by code_simp

text \<open>
  C8, amended: categorization is a case-insensitive lookup against the fixed ordered table
  (AI/ML, Startups, Gadgets, Gaming, Space, Security, Software): the first category in table
  order one of whose keywords occurs as a substring of the lower-cased title wins (inside
  a longer word or across words), and the result is \<open>Tech\<close> when no keyword occurs.
\<close>

theorem categorize_article_first_match:
  "categorize_article article =
     (case find (\<lambda>(cat, keywords). \<exists>k \<in> set keywords. sublist k (lower (RawArticle.title article)))
             categories of
        None \<Rightarrow> ''Tech'' | Some (cat, keywords) \<Rightarrow> cat)
   \<and> map fst categories =
       [''AI/ML'', ''Startups'', ''Gadgets'', ''Gaming'', ''Space'', ''Security'', ''Software'']"
  by (simp add: categorize_article_def category_loop_find) (simp add: categories_def)

theorem categorize_article_first_match_witness:
  "categorize_article
     (example_raw ''Apple announces new AI chip'' ''https://example.org/1'' 0) = ''AI/ML''
   \<and> map fst categories =
       [''AI/ML'', ''Startups'', ''Gadgets'', ''Gaming'', ''Space'', ''Security'', ''Software'']"
proof -
  have v: "categorize_article
     (example_raw ''Apple announces new AI chip'' ''https://example.org/1'' 0) = ''AI/ML''"
    by code_simp
  from categorize_article_first_match
         [of "example_raw ''Apple announces new AI chip'' ''https://example.org/1'' 0"] v
  show ?thesis by blast
qed

text \<open>
  C9, as stated: fragments under 20 characters are dropped. This fails for a fragment of
  exactly 20 characters: the code keeps a fragment only when it is longer than 20.
\<close>

theorem fragment_of_20_dropped:
  "extract_key_points ''OpenAI ships a model.'' = []
   \<and> spec_key_points ''OpenAI ships a model.'' = [''OpenAI ships a model'']
   \<and> length ''OpenAI ships a model'' = 20"
  by code_simp

text \<open>
  C9, amended: key-point extraction replaces each run of three periods by one period,
  splits on periods, strips each fragment, drops the fragments of 20 characters or fewer,
  and keeps the first 3 that remain; hence there are at most 3 key points, and an empty
  summary yields the empty sequence.
\<close>

theorem extract_key_points_longer_than_20:
  "extract_key_points s =
     take 3 (filter (\<lambda>f. length f > 20) (map strip (split_period (replace_ellipsis s))))
   \<and> length (extract_key_points s) \<le> 3
   \<and> extract_key_points [] = []"
proof -
  have m: "map strip (filter (\<lambda>f. strip f \<noteq> [] \<and> length (strip f) > 20) xs)
        = filter (\<lambda>f. length f > 20) (map strip xs)" for xs
    by (induction xs) auto
  have e: "take 3 (filter (\<lambda>f. length f > 20) (map strip (split_period (replace_ellipsis [])))) = []"
    by (simp add: split_period_def strip_def)
  show ?thesis
    using m e by (auto simp: extract_key_points_def Let_def)
qed

theorem extract_key_points_longer_than_20_witness:
  "extract_key_points
     ''OpenAI ships a model. It is said to be very fast indeed... More to come.''
   = [''It is said to be very fast indeed'']
   \<and> length (extract_key_points
        ''OpenAI ships a model. It is said to be very fast indeed... More to come.'') \<le> 3"
proof -
  have v: "extract_key_points
     ''OpenAI ships a model. It is said to be very fast indeed... More to come.''
   = [''It is said to be very fast indeed'']"
    by code_simp
  from extract_key_points_longer_than_20
         [of "''OpenAI ships a model. It is said to be very fast indeed... More to come.''"] v
  show ?thesis by blast
qed

text \<open>
  C10. When the input list has at most \<open>n\<close> elements, \<open>get_top_n\<close> returns the input list
  itself, in the input order: no score is computed and nothing is reordered.
\<close>

theorem get_top_n_short_input:
  "int (length summaries) \<le> n \<Longrightarrow> get_top_n rk strptime now summaries n = Some summaries"
  by (simp add: get_top_n_def)

theorem get_top_n_short_input_witness:
  "int (length [example_summary ''A'' 1, example_summary ''B'' 9]) \<le> 2
   \<and> get_top_n default_ranker strptime_none 0
         [example_summary ''A'' 1, example_summary ''B'' 9] 2
       = Some [example_summary ''A'' 1, example_summary ''B'' 9]"
proof
  show h: "int (length [example_summary ''A'' 1, example_summary ''B'' 9]) \<le> 2" by simp
  show "get_top_n default_ranker strptime_none 0
         [example_summary ''A'' 1, example_summary ''B'' 9] 2
       = Some [example_summary ''A'' 1, example_summary ''B'' 9]"
    by (rule get_top_n_short_input[OF h])
qed

end
